theory Spec2Isabelle
  imports Complex_Main
begin

section \<open>The dopri8 solver: Butcher tableau and dense-output interpolation\<close>

text \<open>
  A shallow embedding of \<^verbatim>\<open>diffrax/solver/dopri8.py\<close>. The source computes in
  floating point; the embedding reads every scalar as the real number it denotes, so
  \<^verbatim>\<open>1 / 18\<close> is the rational one eighteenth and a decimal literal is the decimal
  fraction it spells. Arrays of shape \<^verbatim>\<open>(state,)\<close> are lists of reals, arrays of
  shape \<^verbatim>\<open>(stages, state)\<close> are lists of rows.
\<close>

subsection \<open>Errors\<close>

text \<open>
  \<^verbatim>\<open>ShapeError\<close> stands for the exception the array library raises when the shapes
  of the operands of \<^verbatim>\<open>@\<close>, \<^verbatim>\<open>+\<close> or \<^verbatim>\<open>-\<close> do not agree.
  \<^verbatim>\<open>DivisionByZero\<close> stands for a quotient whose divisor is zero: a Python float
  raises there and an array scalar yields an infinity or a NaN; in either case no real
  number is the result.
\<close>

datatype error = ShapeError | DivisionByZero

subsection \<open>Array operations\<close>

text \<open>
  \<^verbatim>\<open>c @ m\<close> for a vector \<^verbatim>\<open>c\<close> of shape \<^verbatim>\<open>(n,)\<close> and an array
  \<^verbatim>\<open>m\<close> of shape \<^verbatim>\<open>(n, state)\<close>: component \<^verbatim>\<open>j\<close> of the result is
  the sum over the rows \<^verbatim>\<open>i\<close> of \<^verbatim>\<open>c[i] * m[i][j]\<close>. The shapes must agree and
  \<^verbatim>\<open>m\<close> must be rectangular. A list of no rows does not carry the state shape; every
  coefficient vector of this file is non-empty, so that case is a shape error here.
\<close>

definition matvec :: "real list \<Rightarrow> real list list \<Rightarrow> error + real list" where
  "matvec c m =
     (case m of
        [] \<Rightarrow> Inl ShapeError
      | r # rs \<Rightarrow>
          if length c = length m \<and> list_all (\<lambda>row. length row = length r) m
          then Inr (map (\<lambda>j. sum_list (map2 (\<lambda>ci row. ci * row ! j) c m)) [0..<length r])
          else Inl ShapeError)"

text \<open>
  Elementwise \<^verbatim>\<open>u + v\<close> and \<^verbatim>\<open>u - v\<close> of two arrays of the state shape. The
  class annotates \<^verbatim>\<open>y0\<close> and the rows of \<^verbatim>\<open>k\<close> with the same shape
  \<^verbatim>\<open>"state"\<close>; operands of different lengths are a shape error.
\<close>

definition vadd :: "real list \<Rightarrow> real list \<Rightarrow> error + real list" where
  "vadd u v = (if length u = length v then Inr (map2 (+) u v) else Inl ShapeError)"

definition vsub :: "real list \<Rightarrow> real list \<Rightarrow> error + real list" where
  "vsub u v = (if length u = length v then Inr (map2 (-) u v) else Inl ShapeError)"

text \<open>
  \<^verbatim>\<open>jnp.polyval(p, x)\<close>: Horner's rule, the coefficient of the highest power first,
  starting from zero.
\<close>

definition polyval :: "real list \<Rightarrow> real \<Rightarrow> real" where
  "polyval p x = foldl (\<lambda>y c. y * x + c) 0 p"

text \<open>\<^verbatim>\<open>_vmap_polyval = jax.vmap(jnp.polyval, in_axes=(0, None))\<close>: one value per row.\<close>

definition vmap_polyval :: "real list list \<Rightarrow> real \<Rightarrow> real list" where
  "vmap_polyval cs x = map (\<lambda>p. polyval p x) cs"

subsection \<open>The Butcher tableau\<close>

record ButcherTableau =
  alpha :: "real list"
  beta :: "real list list"
  c_sol :: "real list"
  c_error :: "real list"

definition dopri8_alpha :: "real list" where
  "dopri8_alpha =
     [1 / 18,
      1 / 12,
      1 / 8,
      5 / 16,
      3 / 8,
      59 / 400,
      93 / 200,
      5490023248 / 9719169821,
      13 / 20,
      1201146811 / 1299019798,
      1,
      1,
      1]"

definition dopri8_beta :: "real list list" where
  "dopri8_beta =
     [[1 / 18],
      [1 / 48, 1 / 16],
      [1 / 32, 0, 3 / 32],
      [5 / 16, 0, -75 / 64, 75 / 64],
      [3 / 80, 0, 0, 3 / 16, 3 / 20],
      [29443841 / 614563906,
       0,
       0,
       77736538 / 692538347,
       -28693883 / 1125000000,
       23124283 / 1800000000],
      [16016141 / 946692911,
       0,
       0,
       61564180 / 158732637,
       22789713 / 633445777,
       545815736 / 2771057229,
       -180193667 / 1043307555],
      [39632708 / 573591083,
       0,
       0,
       -433636366 / 683701615,
       -421739975 / 2616292301,
       100302831 / 723423059,
       790204164 / 839813087,
       800635310 / 3783071287],
      [246121993 / 1340847787,
       0,
       0,
       -37695042795 / 15268766246,
       -309121744 / 1061227803,
       -12992083 / 490766935,
       6005943493 / 2108947869,
       393006217 / 1396673457,
       123872331 / 1001029789],
      [-1028468189 / 846180014,
       0,
       0,
       8478235783 / 508512852,
       1311729495 / 1432422823,
       -10304129995 / 1701304382,
       -48777925059 / 3047939560,
       15336726248 / 1032824649,
       -45442868181 / 3398467696,
       3065993473 / 597172653],
      [185892177 / 718116043,
       0,
       0,
       -3185094517 / 667107341,
       -477755414 / 1098053517,
       -703635378 / 230739211,
       5731566787 / 1027545527,
       5232866602 / 850066563,
       -4093664535 / 808688257,
       3962137247 / 1805957418,
       65686358 / 487910083],
      [403863854 / 491063109,
       0,
       0,
       -5068492393 / 434740067,
       -411421997 / 543043805,
       652783627 / 914296604,
       11173962825 / 925320556,
       -13158990841 / 6184727034,
       3936647629 / 1978049680,
       -160528059 / 685178525,
       248638103 / 1413531060,
       0],
      [14005451 / 335480064,
       0,
       0,
       0,
       0,
       -59238493 / 1068277825,
       181606767 / 758867731,
       561292985 / 797845732,
       -1041891430 / 1371343529,
       760417239 / 1151165299,
       118820643 / 751138087,
       -528747749 / 2220607170,
       1 / 4]]"

definition dopri8_c_sol :: "real list" where
  "dopri8_c_sol =
     [14005451 / 335480064,
      0,
      0,
      0,
      0,
      -59238493 / 1068277825,
      181606767 / 758867731,
      561292985 / 797845732,
      -1041891430 / 1371343529,
      760417239 / 1151165299,
      118820643 / 751138087,
      -528747749 / 2220607170,
      1 / 4,
      0]"

definition dopri8_c_error :: "real list" where
  "dopri8_c_error =
     [14005451 / 335480064 - 13451932 / 455176623,
      0,
      0,
      0,
      0,
      -59238493 / 1068277825 - -808719846 / 976000145,
      181606767 / 758867731 - 1757004468 / 5645159321,
      561292985 / 797845732 - 656045339 / 265891186,
      -1041891430 / 1371343529 - -3867574721 / 1518517206,
      760417239 / 1151165299 - 465885868 / 322736535,
      118820643 / 751138087 - 53011238 / 667516719,
      -528747749 / 2220607170 - 2 / 45,
      1 / 4,
      0]"

text \<open>The module constant \<^verbatim>\<open>_dopri8_tableau\<close>.\<close>

definition dopri8_tableau :: ButcherTableau where
  "dopri8_tableau =
     \<lparr>alpha = dopri8_alpha, beta = dopri8_beta, c_sol = dopri8_c_sol,
      c_error = dopri8_c_error\<rparr>"

subsection \<open>The interpolation class\<close>

text \<open>
  \<^verbatim>\<open>_Dopri8Interpolation\<close>: the fields \<^verbatim>\<open>t0\<close> and \<^verbatim>\<open>t1\<close> of the base
  class and the fields \<^verbatim>\<open>y0\<close>, \<^verbatim>\<open>y1\<close> and \<^verbatim>\<open>k\<close> the class declares.
\<close>

record Dopri8Interpolation =
  t0 :: real
  t1 :: real
  y0 :: "real list"
  y1 :: "real list"
  k :: "real list list"

definition eval_coeffs :: "real list list" where
  "eval_coeffs =
     [[-6.3448349392860401388,
       22.1396504998094068976,
       -30.0610568289666450593,
       19.9990069333683970610,
       -6.6910181737837595697,
       1],
      [0, 0, 0, 0, 0, 0],
      [0, 0, 0, 0, 0, 0],
      [0, 0, 0, 0, 0, 0],
      [0, 0, 0, 0, 0, 0],
      [-39.6107919852202505218,
       116.4422149550342161651,
       -121.4999627731334642623,
       52.2273532792945524050,
       -7.6142658045872677172,
       0],
      [20.3761213808791436958,
       -67.1451318825957197185,
       83.1721004639847717481,
       -46.8919164181093621583,
       10.7281392630428866124,
       0],
      [7.3347098826795362023,
       -16.5672243527496524646,
       9.5724507555993664382,
       -0.1890893225010595467,
       0.5526637063753648783,
       0],
      [32.8801774352459155182,
       -89.9916014847245016028,
       87.8406057677205645007,
       -35.7075975946222072821,
       4.2186562625665153803,
       0],
      [-10.1588990526426760954,
       22.6237489648532849093,
       -17.4152107770762969005,
       6.2736448083240352160,
       -0.6627209125361597559,
       0],
      [-12.5401268098782561200,
       32.2362340167355370113,
       -28.5903289514790976966,
       10.3160881272450748458,
       -1.2636789001135462218,
       0],
      [29.5553001484516038033,
       -82.1020315488359848644,
       81.6630950584341412934,
       -34.7650769866611817349,
       5.4106037898590422230,
       0],
      [-41.7923486424390588923,
       116.2662185791119533462,
       -114.9375291377009418170,
       47.7457971078225540396,
       -7.0321379067945741781,
       0],
      [20.3006925822100825485,
       -53.9020777466385396792,
       50.2558364226176017553,
       -19.0082099341608028453,
       2.3537586759714983486,
       0]]"

text \<open>
  \<^verbatim>\<open>diff_coeffs = eval_coeffs * np.array([6, 5, 4, 3, 2, 1])\<close>: the factor vector is
  broadcast over the rows, so every row is multiplied elementwise by it.
\<close>

definition diff_coeffs :: "real list list" where
  "diff_coeffs = map (\<lambda>row. map2 (*) row [6, 5, 4, 3, 2, 1]) eval_coeffs"

text \<open>
  \<^verbatim>\<open>evaluate(self, t0, t1=None)\<close>. The optional second time is an
  \<^typ>\<open>real option\<close>. With two times the method calls itself on each of them,
  \<^verbatim>\<open>self.evaluate(t1)\<close> first, and subtracts. With one time it normalises the time,
  evaluates one polynomial per row of \<^const>\<open>eval_coeffs\<close>, multiplies each value by the
  normalised time and contracts with \<^verbatim>\<open>k\<close>.
\<close>

function evaluate :: "Dopri8Interpolation \<Rightarrow> real \<Rightarrow> real option \<Rightarrow> error + real list" where
  "evaluate self ta (Some tb) =
     (case evaluate self tb None of
        Inl e \<Rightarrow> Inl e
      | Inr vb \<Rightarrow>
          (case evaluate self ta None of
             Inl e \<Rightarrow> Inl e
           | Inr va \<Rightarrow> vsub vb va))"
| "evaluate self ta None =
     (if t1 self - t0 self = 0 then Inl DivisionByZero
      else
        let t = (ta - t0 self) / (t1 self - t0 self);
            coeffs = map (\<lambda>p. p * t) (vmap_polyval eval_coeffs t)
        in (case matvec coeffs (k self) of
              Inl e \<Rightarrow> Inl e
            | Inr v \<Rightarrow> vadd (y0 self) v))"
  by pat_completeness auto

termination evaluate
  by (relation "measure (\<lambda>(self, ta, tb). case tb of None \<Rightarrow> 0 | Some _ \<Rightarrow> 1)") auto

text \<open>
  \<^verbatim>\<open>derivative(self, t)\<close>: the reciprocal of the step length scales both the
  time and the rows of \<^verbatim>\<open>k\<close>.
\<close>

definition derivative :: "Dopri8Interpolation \<Rightarrow> real \<Rightarrow> error + real list" where
  "derivative self t =
     (if t1 self - t0 self = 0 then Inl DivisionByZero
      else
        let rt = 1 / (t1 self - t0 self);
            t' = (t - t0 self) * rt;
            coeffs = vmap_polyval diff_coeffs t'
        in matvec coeffs (map (map (\<lambda>x. x * rt)) (k self)))"

text \<open>
  The shape the class annotates: \<^verbatim>\<open>k\<close> has 14 rows, each of the state shape of
  \<^verbatim>\<open>y0\<close>.
\<close>

definition wf_interp :: "Dopri8Interpolation \<Rightarrow> bool" where
  "wf_interp self =
     (length (k self) = 14 \<and> list_all (\<lambda>row. length row = length (y0 self)) (k self))"

subsection \<open>The stepper\<close>

text \<open>
  Modelled from the spec: the stepper, which the repository keeps in
  \<^verbatim>\<open>runge_kutta.py\<close>, is not among the sources; the three definitions below follow
  the algorithm the spec gives for it. \<open>vscale\<close> is the product \<^verbatim>\<open>dt * v\<close> of a scalar
  and a state.
\<close>

definition vscale :: "real \<Rightarrow> real list \<Rightarrow> real list" where
  "vscale a v = map (\<lambda>x. a * x) v"

text \<open>
  Modelled from the spec: the loop over the stages after the first, missing with
  \<^verbatim>\<open>runge_kutta.py\<close>. For each later stage \<^verbatim>\<open>i\<close> the state is
  \<^verbatim>\<open>y_i = y0 + dt * sum_j stage_weights[i-1][j] * stage_derivatives[j]\<close> over the
  stages computed so far, and the stage derivative is
  \<^verbatim>\<open>f(t0 + time_fractions[i-2] * dt, y_i)\<close>. The loop walks the time fractions and
  the rows of weights together and appends each stage derivative to those computed so
  far. Whatever the vector field raises is propagated.
\<close>

fun rk_stages ::
  "(real \<Rightarrow> real list \<Rightarrow> error + real list) \<Rightarrow> real \<Rightarrow> real list \<Rightarrow> real \<Rightarrow>
   (real \<times> real list) list \<Rightarrow> real list list \<Rightarrow> error + real list list" where
  "rk_stages f ta ya dt [] sd = Inr sd"
| "rk_stages f ta ya dt ((a, b) # rest) sd =
     (case matvec b sd of
        Inl e \<Rightarrow> Inl e
      | Inr s \<Rightarrow>
          (case vadd ya (vscale dt s) of
             Inl e \<Rightarrow> Inl e
           | Inr yi \<Rightarrow>
               (case f (ta + a * dt) yi of
                  Inl e \<Rightarrow> Inl e
                | Inr ki \<Rightarrow> rk_stages f ta ya dt rest (sd @ [ki]))))"

text \<open>
  Modelled from the spec: one step, missing with \<^verbatim>\<open>runge_kutta.py\<close>. The first
  stage derivative is \<^verbatim>\<open>f(t0, y0)\<close>; after the loop over the other stages the new
  state is \<^verbatim>\<open>y1 = y0 + dt * sum_i solution_weights[i] * stage_derivatives[i]\<close> and
  the error estimate is \<^verbatim>\<open>dt * sum_i error_weights[i] * stage_derivatives[i]\<close>. The
  result is the new state, the stage derivatives and the error estimate.
\<close>

definition rk_step ::
  "ButcherTableau \<Rightarrow> (real \<Rightarrow> real list \<Rightarrow> error + real list) \<Rightarrow> real \<Rightarrow> real list \<Rightarrow> real \<Rightarrow>
   error + (real list \<times> real list list \<times> real list)" where
  "rk_step tab f ta ya dt =
     (case f ta ya of
        Inl e \<Rightarrow> Inl e
      | Inr k1 \<Rightarrow>
          (case rk_stages f ta ya dt (zip (alpha tab) (beta tab)) [k1] of
             Inl e \<Rightarrow> Inl e
           | Inr sd \<Rightarrow>
               (case matvec (c_sol tab) sd of
                  Inl e \<Rightarrow> Inl e
                | Inr s \<Rightarrow>
                    (case vadd ya (vscale dt s) of
                       Inl e \<Rightarrow> Inl e
                     | Inr yb \<Rightarrow>
                         (case matvec (c_error tab) sd of
                            Inl e \<Rightarrow> Inl e
                          | Inr er \<Rightarrow> Inr (yb, sd, vscale dt er))))))"

section \<open>The tableau\<close>

text \<open>
  Claim C6, as amended. The tableau describes 14 stages, not 13: \<^verbatim>\<open>alpha\<close> and
  \<^verbatim>\<open>beta\<close> have 13 entries, one for each stage after the first, and the solution
  weights, the error weights and the two tables of interpolation coefficients (one row
  for each row of the stage array \<^verbatim>\<open>k\<close>) have 14.
\<close>

theorem dopri8_stage_count:
  "length (alpha dopri8_tableau) = 13 \<and> length (beta dopri8_tableau) = 13 \<and>
   length (c_sol dopri8_tableau) = 14 \<and> length (c_error dopri8_tableau) = 14 \<and>
   length eval_coeffs = 14 \<and> length diff_coeffs = 14"
  by (simp add: dopri8_tableau_def dopri8_alpha_def dopri8_beta_def dopri8_c_sol_def
      dopri8_c_error_def eval_coeffs_def diff_coeffs_def)

text \<open>
  Claim C6 as stated fails: the solution weight vector, the error weight vector and the
  interpolation tables do not have 13 entries.
\<close>

theorem dopri8_stage_count_counterexample:
  "\<not> (length (c_sol dopri8_tableau) = 13 \<and> length (c_error dopri8_tableau) = 13 \<and>
      length eval_coeffs = 13)"
  by (simp add: dopri8_tableau_def dopri8_c_sol_def)


text \<open>
  Claim C4. For every row of \<^verbatim>\<open>beta\<close>, the exact sum of the row's entries and the
  entry of \<^verbatim>\<open>alpha\<close> at the same index differ by at most \<open>10\<^sup>-\<^sup>1\<^sup>2\<close>; the two
  lists have the same length, so every row has its time fraction.
\<close>

theorem dopri8_row_sums:
  "list_all2 (\<lambda>row a. \<bar>sum_list row - a\<bar> \<le> 1 / 10 ^ 12)
     (beta dopri8_tableau) (alpha dopri8_tableau)"
  by (simp add: dopri8_tableau_def dopri8_alpha_def dopri8_beta_def)

text \<open>
  Claim C5, as amended. The solution weights are the published rational approximations:
  their exact sum is below 1, within \<open>10\<^sup>-\<^sup>1\<^sup>7\<close> of it.
\<close>

theorem dopri8_c_sol_sum:
  "\<bar>sum_list (c_sol dopri8_tableau) - 1\<bar> \<le> 1 / 10 ^ 17 \<and>
   sum_list (c_sol dopri8_tableau) < 1"
  by (simp add: dopri8_tableau_def dopri8_c_sol_def)

text \<open>Claim C5 as stated fails: in exact rational arithmetic the sum is not 1.\<close>

theorem dopri8_c_sol_sum_counterexample:
  "sum_list (c_sol dopri8_tableau) \<noteq> 1"
  by (simp add: dopri8_tableau_def dopri8_c_sol_def)

section \<open>The interpolation\<close>

subsection \<open>Closed forms of the two methods\<close>

declare evaluate.simps [simp del]

lemmas tab_defs =
  dopri8_tableau_def dopri8_alpha_def dopri8_beta_def dopri8_c_sol_def dopri8_c_error_def

lemma matvec_Inr:
  assumes "m \<noteq> []" "length c = length m" "list_all (\<lambda>row. length row = n) m"
  shows "matvec c m = Inr (map (\<lambda>j. sum_list (map2 (\<lambda>ci row. ci * row ! j) c m)) [0..<n])"
  using assms by (cases m) (auto simp: matvec_def)

lemma matvec_InrD:
  assumes "matvec c m = Inr s"
  shows "length c = length m" and "list_all (\<lambda>row. length row = length s) m"
    and "m \<noteq> []"
    and "s = map (\<lambda>j. sum_list (map2 (\<lambda>ci row. ci * row ! j) c m)) [0..<length s]"
  using assms by (auto simp: matvec_def split: list.splits if_splits)

lemma matvec_k:
  assumes "wf_interp ip" "length c = 14"
  shows "matvec c (k ip) =
    Inr (map (\<lambda>j. sum_list (map2 (\<lambda>ci row. ci * row ! j) c (k ip))) [0..<length (y0 ip)])"
proof -
  from assms(1) have "k ip \<noteq> []" "length (k ip) = 14"
    and "list_all (\<lambda>row. length row = length (y0 ip)) (k ip)"
    by (auto simp: wf_interp_def)
  with assms(2) show ?thesis by (intro matvec_Inr) simp_all
qed

lemma matvec_scaled_k:
  assumes "wf_interp ip" "length c = 14"
  shows "matvec c (map (map (\<lambda>x. x * r)) (k ip)) =
    Inr (map (\<lambda>j. sum_list (map2 (\<lambda>ci row. ci * (row ! j * r)) c (k ip)))
      [0..<length (y0 ip)])"
proof -
  let ?m = "map (map (\<lambda>x. x * r)) (k ip)"
  from assms(1) have ne: "?m \<noteq> []" and len: "length ?m = 14"
    and rect: "list_all (\<lambda>row. length row = length (y0 ip)) ?m"
    and rect0: "list_all (\<lambda>row. length row = length (y0 ip)) (k ip)"
    by (auto simp: wf_interp_def list_all_iff)
  have "matvec c ?m =
      Inr (map (\<lambda>j. sum_list (map2 (\<lambda>ci row. ci * row ! j) c ?m)) [0..<length (y0 ip)])"
    using ne len rect assms(2) by (intro matvec_Inr) simp_all
  moreover have "sum_list (map2 (\<lambda>ci row. ci * row ! j) c ?m) =
      sum_list (map2 (\<lambda>ci row. ci * (row ! j * r)) c (k ip))" if "j < length (y0 ip)" for j
  proof -
    have "map2 (\<lambda>ci row. ci * row ! j) c ?m = map2 (\<lambda>ci row. ci * (row ! j * r)) c (k ip)"
      using rect0 that by (auto simp: zip_map2 list_all_iff dest: set_zip_rightD)
    then show ?thesis by simp
  qed
  ultimately show ?thesis by simp
qed

lemma sum_zero_coeffs:
  "sum_list (map2 (\<lambda>ci row. ci * row ! j) (map (\<lambda>p. 0) cs) m) = (0::real)"
proof (induction cs arbitrary: m)
  case Nil
  show ?case by simp
next
  case (Cons c cs)
  show ?case by (cases m) (simp_all add: Cons.IH)
qed

lemma map2_upt:
  "map2 g y (map f [0..<length y]) = map (\<lambda>j. g (y ! j) (f j)) [0..<length y]"
  by (rule nth_equalityI) simp_all

lemma length_vmap_polyval [simp]: "length (vmap_polyval cs x) = length cs"
  by (simp add: vmap_polyval_def)

lemma length_eval_coeffs [simp]: "length eval_coeffs = 14"
  by (simp add: eval_coeffs_def)

lemma length_diff_coeffs [simp]: "length diff_coeffs = 14"
  by (simp add: diff_coeffs_def)

lemma evaluate_None:
  assumes "wf_interp ip" "t1 ip \<noteq> t0 ip"
  shows "evaluate ip ta None =
    Inr (map (\<lambda>j. y0 ip ! j + sum_list (map2 (\<lambda>ci row. ci * row ! j)
       (map (\<lambda>p. p * ((ta - t0 ip) / (t1 ip - t0 ip)))
          (vmap_polyval eval_coeffs ((ta - t0 ip) / (t1 ip - t0 ip)))) (k ip)))
       [0..<length (y0 ip)])"
proof -
  let ?t = "(ta - t0 ip) / (t1 ip - t0 ip)"
  let ?c = "map (\<lambda>p. p * ?t) (vmap_polyval eval_coeffs ?t)"
  have len: "length ?c = 14" by simp
  have "evaluate ip ta None =
      (case matvec ?c (k ip) of Inl e \<Rightarrow> Inl e | Inr v \<Rightarrow> vadd (y0 ip) v)"
    using assms(2) by (simp only: evaluate.simps(2) Let_def) simp
  also have "\<dots> = vadd (y0 ip)
      (map (\<lambda>j. sum_list (map2 (\<lambda>ci row. ci * row ! j) ?c (k ip))) [0..<length (y0 ip)])"
    by (simp only: matvec_k[OF assms(1) len] sum.case)
  also have "\<dots> = Inr (map (\<lambda>j. y0 ip ! j + sum_list (map2 (\<lambda>ci row. ci * row ! j) ?c (k ip)))
      [0..<length (y0 ip)])"
    by (simp add: vadd_def map2_upt)
  finally show ?thesis .
qed

lemma derivative_eq:
  assumes "wf_interp ip" "t1 ip \<noteq> t0 ip"
  shows "derivative ip t =
    Inr (map (\<lambda>j. sum_list (map2 (\<lambda>ci row. ci * (row ! j * (1 / (t1 ip - t0 ip))))
       (vmap_polyval diff_coeffs ((t - t0 ip) * (1 / (t1 ip - t0 ip)))) (k ip)))
       [0..<length (y0 ip)])"
proof -
  let ?rt = "1 / (t1 ip - t0 ip)"
  let ?c = "vmap_polyval diff_coeffs ((t - t0 ip) * ?rt)"
  have len: "length ?c = 14" by simp
  have "derivative ip t = matvec ?c (map (map (\<lambda>x. x * ?rt)) (k ip))"
    using assms(2) by (simp only: derivative_def Let_def) simp
  then show ?thesis
    by (simp only: matvec_scaled_k[OF assms(1) len])
qed

subsection \<open>The start of the step\<close>

text \<open>
  Claim C3. For an interpolant of the annotated shape with \<open>t1 \<noteq> t0\<close>, the
  one-argument \<^verbatim>\<open>evaluate\<close> at \<open>t0\<close> returns \<open>y0\<close> itself: the normalised time is
  zero there and every polynomial value is multiplied by it.
\<close>

theorem evaluate_at_t0:
  assumes "wf_interp ip" "t1 ip \<noteq> t0 ip"
  shows "evaluate ip (t0 ip) None = Inr (y0 ip)"
  using assms by (simp add: evaluate_None sum_zero_coeffs map_nth)

theorem evaluate_at_t0_witness:
  "wf_interp \<lparr>t0 = 0, t1 = 1, y0 = [1], y1 = [2], k = replicate 14 [1]\<rparr> \<and> t1 \<lparr>t0 = 0, t1 = 1, y0 = [1], y1 = [2], k = replicate 14 [1]\<rparr> \<noteq> t0 \<lparr>t0 = 0, t1 = 1, y0 = [1], y1 = [2], k = replicate 14 [1]\<rparr> \<and> evaluate \<lparr>t0 = 0, t1 = 1, y0 = [1], y1 = [2], k = replicate 14 [1]\<rparr> 0 None = Inr [1]"
proof -
  have wf: "wf_interp \<lparr>t0 = 0, t1 = 1, y0 = [1], y1 = [2], k = replicate 14 [1]\<rparr>"
    by (simp add: wf_interp_def list_all_iff)
  have ne: "t1 \<lparr>t0 = 0, t1 = 1, y0 = [1], y1 = [2], k = replicate 14 [1]\<rparr> \<noteq> t0 \<lparr>t0 = 0, t1 = 1, y0 = [1], y1 = [2], k = replicate 14 [1]\<rparr>" by simp
  from evaluate_at_t0[OF wf ne] wf ne show ?thesis by simp
qed

subsection \<open>Increments\<close>

text \<open>
  Claim C7. For an interpolant of the annotated shape with \<open>t1 \<noteq> t0\<close> and all times
  \<open>a\<close> and \<open>b\<close>, both one-argument evaluations return a state, and the two-argument
  call returns their elementwise difference, the value at \<open>b\<close> minus the value at \<open>a\<close>.
\<close>

theorem evaluate_increment:
  assumes "wf_interp ip" "t1 ip \<noteq> t0 ip"
  shows "\<exists>va vb. evaluate ip a None = Inr va \<and> evaluate ip b None = Inr vb \<and>
           length va = length vb \<and>
           evaluate ip a (Some b) = Inr (map2 (-) vb va)"
proof -
  obtain va where va: "evaluate ip a None = Inr va" "length va = length (y0 ip)"
    using assms by (simp add: evaluate_None)
  obtain vb where vb: "evaluate ip b None = Inr vb" "length vb = length (y0 ip)"
    using assms by (simp add: evaluate_None)
  have "evaluate ip a (Some b) = Inr (map2 (-) vb va)"
    using va vb by (simp add: evaluate.simps(1) vsub_def)
  with va vb show ?thesis by simp
qed

theorem evaluate_increment_witness:
  "\<exists>va vb. evaluate \<lparr>t0 = 0, t1 = 1, y0 = [1], y1 = [2], k = replicate 14 [1]\<rparr> (1 / 4) None = Inr va \<and> evaluate \<lparr>t0 = 0, t1 = 1, y0 = [1], y1 = [2], k = replicate 14 [1]\<rparr> (3 / 4) None = Inr vb \<and>
     length va = length vb \<and>
     evaluate \<lparr>t0 = 0, t1 = 1, y0 = [1], y1 = [2], k = replicate 14 [1]\<rparr> (1 / 4) (Some (3 / 4)) = Inr (map2 (-) vb va)"
proof -
  have wf: "wf_interp \<lparr>t0 = 0, t1 = 1, y0 = [1], y1 = [2], k = replicate 14 [1]\<rparr>"
    by (simp add: wf_interp_def list_all_iff)
  have ne: "t1 \<lparr>t0 = 0, t1 = 1, y0 = [1], y1 = [2], k = replicate 14 [1]\<rparr> \<noteq> t0 \<lparr>t0 = 0, t1 = 1, y0 = [1], y1 = [2], k = replicate 14 [1]\<rparr>" by simp
  show ?thesis by (rule evaluate_increment[OF wf ne])
qed

subsection \<open>Totality\<close>

text \<open>
  Claim C8. For an interpolant of the annotated shape with \<open>t1 \<noteq> t0\<close>, both methods
  return a state of the shape of \<open>y0\<close> at every time \<open>t\<close>, inside the step or not:
  neither method compares \<open>t\<close> with the ends of the step. The value of
  \<^verbatim>\<open>evaluate\<close> is given by the same polynomials in the normalised time everywhere.
\<close>

theorem evaluate_derivative_total:
  assumes "wf_interp ip" "t1 ip \<noteq> t0 ip"
  shows "(\<exists>v. evaluate ip t None = Inr v \<and> length v = length (y0 ip) \<and>
            (\<forall>j<length (y0 ip). v ! j = y0 ip ! j +
               (\<Sum>(p, row)\<leftarrow>zip eval_coeffs (k ip).
                  polyval p ((t - t0 ip) / (t1 ip - t0 ip)) * ((t - t0 ip) / (t1 ip - t0 ip)) *
                  row ! j))) \<and>
         (\<exists>d. derivative ip t = Inr d \<and> length d = length (y0 ip))"
proof -
  let ?t = "(t - t0 ip) / (t1 ip - t0 ip)"
  have "sum_list (map2 (\<lambda>ci row. ci * row ! j) (map (\<lambda>p. p * ?t) (vmap_polyval eval_coeffs ?t)) (k ip)) =
      (\<Sum>(p, row)\<leftarrow>zip eval_coeffs (k ip). polyval p ?t * ?t * row ! j)" for j
    by (simp only: vmap_polyval_def map_map zip_map1 o_def case_prod_unfold fst_conv snd_conv)
  then show ?thesis
    using assms by (simp add: evaluate_None derivative_eq)
qed

theorem evaluate_derivative_total_witness:
  "(\<exists>v. evaluate \<lparr>t0 = 0, t1 = 1, y0 = [1], y1 = [2], k = replicate 14 [1]\<rparr> 3 None = Inr v \<and> length v = 1) \<and> (\<exists>d. derivative \<lparr>t0 = 0, t1 = 1, y0 = [1], y1 = [2], k = replicate 14 [1]\<rparr> 3 = Inr d \<and> length d = 1)"
proof -
  have wf: "wf_interp \<lparr>t0 = 0, t1 = 1, y0 = [1], y1 = [2], k = replicate 14 [1]\<rparr>"
    by (simp add: wf_interp_def list_all_iff)
  have ne: "t1 \<lparr>t0 = 0, t1 = 1, y0 = [1], y1 = [2], k = replicate 14 [1]\<rparr> \<noteq> t0 \<lparr>t0 = 0, t1 = 1, y0 = [1], y1 = [2], k = replicate 14 [1]\<rparr>" by simp
  from evaluate_derivative_total[OF wf ne, of 3] show ?thesis by auto
qed

subsection \<open>The stored end state is not read\<close>

text \<open>
  Claim C10. Two interpolants that agree on \<open>t0\<close>, \<open>t1\<close>, \<open>y0\<close> and \<open>k\<close> give the same
  results of \<^verbatim>\<open>evaluate\<close>, with one time and with two, and of \<^verbatim>\<open>derivative\<close>,
  whatever their \<open>y1\<close> fields hold.
\<close>

theorem evaluate_derivative_ignore_y1:
  assumes "t0 ip' = t0 ip" "t1 ip' = t1 ip" "y0 ip' = y0 ip" "k ip' = k ip"
  shows "evaluate ip' a None = evaluate ip a None \<and>
    evaluate ip' a (Some b) = evaluate ip a (Some b) \<and>
    derivative ip' t = derivative ip t"
proof -
  have one: "evaluate ip' s None = evaluate ip s None" for s
    by (simp only: evaluate.simps(2) assms)
  have two: "evaluate ip' a (Some b) = evaluate ip a (Some b)"
    by (simp only: evaluate.simps(1) one)
  have three: "derivative ip' t = derivative ip t"
    by (simp only: derivative_def assms)
  from one two three show ?thesis by simp
qed

theorem evaluate_derivative_ignore_y1_witness:
  "evaluate \<lparr>t0 = 0, t1 = 1, y0 = [1], y1 = [7], k = replicate 14 [1]\<rparr> (1 / 2) None = evaluate \<lparr>t0 = 0, t1 = 1, y0 = [1], y1 = [2], k = replicate 14 [1]\<rparr> (1 / 2) None \<and>
   evaluate \<lparr>t0 = 0, t1 = 1, y0 = [1], y1 = [7], k = replicate 14 [1]\<rparr> (1 / 2) (Some 2) = evaluate \<lparr>t0 = 0, t1 = 1, y0 = [1], y1 = [2], k = replicate 14 [1]\<rparr> (1 / 2) (Some 2) \<and>
   derivative \<lparr>t0 = 0, t1 = 1, y0 = [1], y1 = [7], k = replicate 14 [1]\<rparr> (1 / 2) = derivative \<lparr>t0 = 0, t1 = 1, y0 = [1], y1 = [2], k = replicate 14 [1]\<rparr> (1 / 2)"
  by (rule evaluate_derivative_ignore_y1) simp_all

subsection \<open>The end of the step\<close>





subsection \<open>The derivative\<close>

lemma polyval6_deriv:
  "((\<lambda>x. polyval [a, b, c, d, e, f] x * x) has_real_derivative
     polyval (map2 (*) [a, b, c, d, e, f] [6, 5, 4, 3, 2, 1]) x) (at x)"
  unfolding polyval_def
  by (auto intro!: derivative_eq_intros simp: algebra_simps power2_eq_square power3_eq_cube)

lemma length6E:
  assumes "length (p :: real list) = 6"
  obtains a b c d e f where "p = [a, b, c, d, e, f]"
  using assms by (auto simp: eval_nat_numeral length_Suc_conv)

lemma row_deriv:
  assumes "length p = 6"
  shows "((\<lambda>x. polyval p x * x) has_real_derivative
     polyval (map2 (*) p [6, 5, 4, 3, 2, 1]) x) (at x)"
proof -
  from assms obtain a b c d e f where p: "p = [a, b, c, d, e, f]" by (rule length6E)
  show ?thesis unfolding p by (rule polyval6_deriv)
qed

lemma row_deriv_time:
  assumes "length p = 6" "h \<noteq> 0"
  shows "((\<lambda>s. polyval p ((s - a) / h) * ((s - a) / h)) has_real_derivative
     polyval (map2 (*) p [6, 5, 4, 3, 2, 1]) ((t - a) * (1 / h)) * (1 / h)) (at t)"
proof -
  have inner: "((\<lambda>s. (s - a) / h) has_real_derivative 1 / h) (at t)"
    using assms(2) by (auto intro!: derivative_eq_intros)
  have "((\<lambda>s. polyval p ((s - a) / h) * ((s - a) / h)) has_real_derivative
      polyval (map2 (*) p [6, 5, 4, 3, 2, 1]) ((t - a) / h) * (1 / h)) (at t)"
    by (rule DERIV_chain2[where f = "\<lambda>x. polyval p x * x" and g = "\<lambda>s. (s - a) / h",
          OF row_deriv[OF assms(1)] inner])
  then show ?thesis by simp
qed

lemma rows_deriv:
  assumes "list_all (\<lambda>p. length p = 6) ps" "h \<noteq> 0"
  shows "((\<lambda>s. sum_list (map2 (\<lambda>ci row. ci * row ! j)
             (map (\<lambda>p. p * ((s - a) / h)) (vmap_polyval ps ((s - a) / h))) m))
          has_real_derivative
          sum_list (map2 (\<lambda>ci row. ci * (row ! j * (1 / h)))
             (vmap_polyval (map (\<lambda>row. map2 (*) row [6, 5, 4, 3, 2, 1]) ps)
                ((t - a) * (1 / h))) m))
         (at t)"
  using assms(1)
proof (induction ps arbitrary: m)
  case Nil
  show ?case by (simp add: vmap_polyval_def)
next
  case (Cons p ps)
  then have p: "length p = 6" and ps: "list_all (\<lambda>p. length p = 6) ps" by simp_all
  show ?case
  proof (cases m)
    case Nil
    then show ?thesis by simp
  next
    case (Cons r rs)
    have hd: "((\<lambda>s. polyval p ((s - a) / h) * ((s - a) / h) * r ! j) has_real_derivative
        polyval (map2 (*) p [6, 5, 4, 3, 2, 1]) ((t - a) * (1 / h)) * (1 / h) * r ! j) (at t)"
      by (rule DERIV_cmult_right[OF row_deriv_time[OF p assms(2)]])
    show ?thesis
      unfolding Cons vmap_polyval_def
      using DERIV_add[OF hd Cons.IH[OF ps, of rs, unfolded vmap_polyval_def]]
      by (simp add: algebra_simps)
  qed
qed

lemma eval_rows6: "list_all (\<lambda>p. length p = 6) eval_coeffs"
  by (simp add: eval_coeffs_def)

text \<open>
  Claim C2. Every row of \<^const>\<open>diff_coeffs\<close> is the coefficient list of the derivative
  of the normalised time times the polynomial of the same row of \<^const>\<open>eval_coeffs\<close>.
  For an interpolant of the annotated shape with \<open>t1 \<noteq> t0\<close> and every time \<open>t\<close>,
  \<^verbatim>\<open>derivative\<close> returns a state, and each of its components is the derivative at
  \<open>t\<close> of the same component of the one-argument \<^verbatim>\<open>evaluate\<close> as a function of
  its time.
\<close>

theorem derivative_of_evaluate:
  assumes "wf_interp ip" "t1 ip \<noteq> t0 ip"
  shows "list_all2 (\<lambda>p d. \<forall>x. ((\<lambda>s. polyval p s * s) has_real_derivative polyval d x) (at x))
           eval_coeffs diff_coeffs \<and>
         (\<exists>D. derivative ip t = Inr D \<and> length D = length (y0 ip) \<and>
           (\<forall>j<length (y0 ip).
              ((\<lambda>s. projr (evaluate ip s None) ! j) has_real_derivative D ! j) (at t)))"
proof -
  let ?h = "t1 ip - t0 ip"
  have h: "?h \<noteq> 0" using assms(2) by simp
  have rows: "list_all2 (\<lambda>p d. \<forall>x. ((\<lambda>s. polyval p s * s) has_real_derivative polyval d x) (at x))
      eval_coeffs diff_coeffs"
    unfolding diff_coeffs_def list_all2_map2 list_all2_same
    using eval_rows6 row_deriv by (auto simp: list_all_iff)
  let ?D = "map (\<lambda>j. sum_list (map2 (\<lambda>ci row. ci * (row ! j * (1 / ?h)))
       (vmap_polyval diff_coeffs ((t - t0 ip) * (1 / ?h))) (k ip))) [0..<length (y0 ip)]"
  have d: "derivative ip t = Inr ?D" by (rule derivative_eq[OF assms])
  have "((\<lambda>s. projr (evaluate ip s None) ! j) has_real_derivative ?D ! j) (at t)"
    if j: "j < length (y0 ip)" for j
  proof -
    let ?F = "\<lambda>s. sum_list (map2 (\<lambda>ci row. ci * row ! j)
       (map (\<lambda>p. p * ((s - t0 ip) / ?h)) (vmap_polyval eval_coeffs ((s - t0 ip) / ?h))) (k ip))"
    let ?S = "sum_list (map2 (\<lambda>ci row. ci * (row ! j * (1 / ?h)))
       (vmap_polyval diff_coeffs ((t - t0 ip) * (1 / ?h))) (k ip))"
    have fn: "(\<lambda>s. projr (evaluate ip s None) ! j) = (\<lambda>s. y0 ip ! j + ?F s)"
      using j by (simp add: evaluate_None[OF assms])
    have core: "(?F has_real_derivative ?S) (at t)"
      unfolding diff_coeffs_def by (rule rows_deriv[OF eval_rows6 h])
    have dj: "?D ! j = ?S"
      using j by (simp only: nth_map length_upt nth_upt diff_zero add_0)
    have "((\<lambda>s. y0 ip ! j + ?F s) has_real_derivative 0 + ?S) (at t)"
      by (rule DERIV_add[OF DERIV_const core])
    then have "((\<lambda>s. y0 ip ! j + ?F s) has_real_derivative ?S) (at t)"
      by (simp only: add_0)
    then show ?thesis by (simp only: fn dj)
  qed
  with d rows show ?thesis by simp
qed

theorem derivative_of_evaluate_witness:
  "\<exists>D. derivative \<lparr>t0 = 0, t1 = 1, y0 = [1], y1 = [2], k = replicate 14 [1]\<rparr> (1 / 2) = Inr D \<and> length D = 1 \<and>
     ((\<lambda>s. projr (evaluate \<lparr>t0 = 0, t1 = 1, y0 = [1], y1 = [2], k = replicate 14 [1]\<rparr> s None) ! 0) has_real_derivative D ! 0) (at (1 / 2))"
proof -
  have wf: "wf_interp \<lparr>t0 = 0, t1 = 1, y0 = [1], y1 = [2], k = replicate 14 [1]\<rparr>"
    by (simp add: wf_interp_def list_all_iff)
  have ne: "t1 \<lparr>t0 = 0, t1 = 1, y0 = [1], y1 = [2], k = replicate 14 [1]\<rparr> \<noteq> t0 \<lparr>t0 = 0, t1 = 1, y0 = [1], y1 = [2], k = replicate 14 [1]\<rparr>" by simp
  from derivative_of_evaluate[OF wf ne, of "1 / 2"] show ?thesis by auto
qed

section \<open>The last stage\<close>

lemma matvec_snoc_zero:
  assumes "matvec b m = Inr s" and "matvec (b @ [0]) (m @ [r]) = Inr s'"
  shows "s' = s"
proof -
  note d = matvec_InrD[OF assms(1)]
  from d(3) obtain r0 rs where m: "m = r0 # rs" by (cases m) auto
  have s: "s = map (\<lambda>j. sum_list (map2 (\<lambda>ci row. ci * row ! j) b m)) [0..<length r0]"
    using assms(1) unfolding m matvec_def by (simp split: if_splits)
  have s': "s' = map (\<lambda>j. sum_list (map2 (\<lambda>ci row. ci * row ! j) (b @ [0]) (m @ [r])))
      [0..<length r0]"
    using assms(2) unfolding m matvec_def by (simp split: if_splits)
  have "sum_list (map2 (\<lambda>ci row. ci * row ! j) (b @ [0]) (m @ [r])) =
      sum_list (map2 (\<lambda>ci row. ci * row ! j) b m)" for j
    using d(1) by simp
  with s s' show ?thesis by simp
qed

lemma rk_stages_snoc:
  "rk_stages f ta ya dt (ab @ [(a, b)]) sd =
     (case rk_stages f ta ya dt ab sd of
        Inl e \<Rightarrow> Inl e
      | Inr sd' \<Rightarrow>
          (case matvec b sd' of
             Inl e \<Rightarrow> Inl e
           | Inr s \<Rightarrow>
               (case vadd ya (vscale dt s) of
                  Inl e \<Rightarrow> Inl e
                | Inr yi \<Rightarrow>
                    (case f (ta + a * dt) yi of
                       Inl e \<Rightarrow> Inl e
                     | Inr ki \<Rightarrow> Inr (sd' @ [ki])))))"
proof (induction ab arbitrary: sd)
  case Nil
  show ?case by (simp split: sum.splits)
next
  case (Cons x ab)
  obtain a' b' where x: "x = (a', b')" by (cases x)
  show ?case unfolding x by (simp add: Cons.IH split: sum.splits)
qed

lemma rk_stages_length:
  "rk_stages f ta ya dt ab sd = Inr sd' \<Longrightarrow> length sd' = length sd + length ab"
proof (induction ab arbitrary: sd)
  case Nil
  then show ?case by simp
next
  case (Cons x ab)
  obtain a' b' where x: "x = (a', b')" by (cases x)
  from Cons.prems Cons.IH show ?case
    unfolding x by (auto split: sum.splits)
qed

lemma dopri8_zip_last:
  "zip (alpha dopri8_tableau) (beta dopri8_tableau) =
     zip (butlast (alpha dopri8_tableau)) (butlast (beta dopri8_tableau)) @
     [(1, take 13 (c_sol dopri8_tableau))]"
  by (simp add: tab_defs)

lemma dopri8_c_sol_last:
  "c_sol dopri8_tableau = take 13 (c_sol dopri8_tableau) @ [0]"
  by (simp add: tab_defs)

lemma dopri8_zip_length: "length (zip (alpha dopri8_tableau) (beta dopri8_tableau)) = 13"
  by (simp add: tab_defs)

text \<open>
  Claim C9. The last row of \<^verbatim>\<open>beta\<close> is the first 13 entries of \<^verbatim>\<open>c_sol\<close>, the
  last entry of \<^verbatim>\<open>alpha\<close> is 1 and the fourteenth entry of \<^verbatim>\<open>c_sol\<close> is 0. So
  whenever a step of the stepper with this tableau succeeds, it has 14 stage derivatives
  and the last of them is the vector field at the end time \<open>ta + dt\<close> and the new state.
\<close>

theorem dopri8_last_stage:
  "last (beta dopri8_tableau) = take 13 (c_sol dopri8_tableau) \<and>
   last (alpha dopri8_tableau) = 1 \<and>
   c_sol dopri8_tableau ! 13 = 0 \<and>
   (rk_step dopri8_tableau f ta ya dt = Inr (yb, sd, er) \<longrightarrow>
      length sd = 14 \<and> f (ta + dt) yb = Inr (last sd))"
proof -
  have tab: "last (beta dopri8_tableau) = take 13 (c_sol dopri8_tableau)"
    "last (alpha dopri8_tableau) = 1" "c_sol dopri8_tableau ! 13 = 0"
    by (simp_all add: tab_defs)
  have "length sd = 14 \<and> f (ta + dt) yb = Inr (last sd)"
    if step: "rk_step dopri8_tableau f ta ya dt = Inr (yb, sd, er)"
  proof -
    let ?b = "take 13 (c_sol dopri8_tableau)"
    let ?init = "zip (butlast (alpha dopri8_tableau)) (butlast (beta dopri8_tableau))"
    from step obtain k1 s where k1: "f ta ya = Inr k1"
      and st: "rk_stages f ta ya dt (zip (alpha dopri8_tableau) (beta dopri8_tableau)) [k1] =
        Inr sd"
      and sol: "matvec (c_sol dopri8_tableau) sd = Inr s"
      and yb: "vadd ya (vscale dt s) = Inr yb"
      by (auto simp: rk_step_def split: sum.splits)
    from st have len: "length sd = 14"
      using rk_stages_length[OF st] dopri8_zip_length by simp
    from st have "rk_stages f ta ya dt (?init @ [(1, ?b)]) [k1] = Inr sd"
      by (simp only: dopri8_zip_last)
    then obtain sd' s1 yi ki where "rk_stages f ta ya dt ?init [k1] = Inr sd'"
      and s1: "matvec ?b sd' = Inr s1"
      and yi: "vadd ya (vscale dt s1) = Inr yi"
      and ki: "f (ta + 1 * dt) yi = Inr ki"
      and sd: "sd = sd' @ [ki]"
      by (auto simp: rk_stages_snoc split: sum.splits)
    from sol have "matvec (?b @ [0]) (sd' @ [ki]) = Inr s"
      using dopri8_c_sol_last sd by simp
    from matvec_snoc_zero[OF s1 this] have "s = s1" .
    with yi yb have "yi = yb" by simp
    with ki sd len show ?thesis by simp
  qed
  with tab show ?thesis by blast
qed

lemma dopri8_step_example:
  "\<exists>yb sd er. rk_step dopri8_tableau (\<lambda>t y. Inr (map (\<lambda>x. t) y)) 0 [1] 1 = Inr (yb, sd, er)"
  by (simp add: rk_step_def tab_defs matvec_def vadd_def vscale_def)

theorem dopri8_last_stage_witness:
  "\<exists>yb sd er. rk_step dopri8_tableau (\<lambda>t y. Inr (map (\<lambda>x. t) y)) 0 [1] 1 = Inr (yb, sd, er) \<and>
     length sd = 14 \<and> (Inr (map (\<lambda>x. 0 + 1) yb) :: error + real list) = Inr (last sd)"
proof -
  obtain yb sd er where
    st: "rk_step dopri8_tableau (\<lambda>t y. Inr (map (\<lambda>x. t) y)) 0 [1] 1 = Inr (yb, sd, er)"
    using dopri8_step_example by blast
  from dopri8_last_stage[of "\<lambda>t y. Inr (map (\<lambda>x. t) y)" 0 "[1]" 1 yb sd er] st
  show ?thesis by blast
qed

end
